theory Spec2Isabelle
  imports Main
begin

section \<open>The chess library as the code sees it\<close>

text \<open>
  Both \<^verbatim>\<open>chess_game.py\<close> and \<^verbatim>\<open>main.py\<close> delegate the rules of chess to the
  python-chess library. The library is not part of the repository, so its position-level
  operations are a parameter of the model (the record \<open>rules\<close> below); the objects the
  code manipulates directly (moves, the board with its move stack, square names) are
  modelled as the code uses them.
\<close>

text \<open>\<^verbatim>\<open>chess.Move(from_square, to_square, promotion)\<close>; squares are indices 0..63.\<close>

datatype move = Move (from_square: nat) (to_square: nat) (promotion: "nat option")

text \<open>
  Truth value of a move object (\<^verbatim>\<open>if engine_move:\<close>): the null move, from square 0 to
  square 0 without promotion, is false; every other move is true.
\<close>

definition move_bool :: "move \<Rightarrow> bool" where
  "move_bool m \<longleftrightarrow> from_square m \<noteq> 0 \<or> to_square m \<noteq> 0 \<or> promotion m \<noteq> None"

text \<open>Piece types \<^verbatim>\<open>chess.PAWN .. chess.KING\<close> are the numbers 1..6; \<^verbatim>\<open>chess.WHITE\<close> is \<open>True\<close>.\<close>

definition PAWN :: nat where "PAWN = 1"
definition KNIGHT :: nat where "KNIGHT = 2"
definition BISHOP :: nat where "BISHOP = 3"
definition ROOK :: nat where "ROOK = 4"
definition QUEEN :: nat where "QUEEN = 5"
definition KING :: nat where "KING = 6"

record piece =
  piece_type :: nat
  color :: bool

text \<open>
  A board object: the current position and the stack of moves pushed so far, each with
  the position it was played in (most recent first), which is what \<^verbatim>\<open>pop\<close> restores.
\<close>

record 'p board =
  cur :: 'p
  stack :: "('p \<times> move) list"

definition move_stack :: "'p board \<Rightarrow> move list" where
  "move_stack b = rev (map snd (stack b))"

text \<open>
  The rules of chess on positions \<open>'p\<close>, with position keys (FEN strings) of type \<open>'k\<close>.
  \<open>san\<close> is \<open>None\<close> where \<^verbatim>\<open>board.san(move)\<close> raises; \<open>is_game_over\<close> sees the whole
  board, since repetition draws depend on the moves played.
\<close>

record ('p, 'k) rules =
  start_pos :: 'p
  legal_moves :: "'p \<Rightarrow> move list"
  apply_move :: "'p \<Rightarrow> move \<Rightarrow> 'p"
  san :: "'p \<Rightarrow> move \<Rightarrow> string option"
  fen :: "'p \<Rightarrow> 'k"
  turn :: "'p \<Rightarrow> bool"
  piece_at :: "'p \<Rightarrow> nat \<Rightarrow> piece option"
  is_capture :: "'p \<Rightarrow> move \<Rightarrow> bool"
  is_check :: "'p \<Rightarrow> bool"
  is_checkmate :: "'p \<Rightarrow> bool"
  is_stalemate :: "'p \<Rightarrow> bool"
  is_game_over :: "'p board \<Rightarrow> bool"

text \<open>\<^verbatim>\<open>chess.Board()\<close>, \<^verbatim>\<open>board.push(move)\<close> and \<^verbatim>\<open>board.pop()\<close> (which raises on an empty stack).\<close>

definition new_board :: "('p, 'k) rules \<Rightarrow> 'p board" where
  "new_board R = \<lparr>cur = start_pos R, stack = []\<rparr>"

definition push :: "('p, 'k) rules \<Rightarrow> 'p board \<Rightarrow> move \<Rightarrow> 'p board" where
  "push R b m = \<lparr>cur = apply_move R (cur b) m, stack = (cur b, m) # stack b\<rparr>"

definition pop :: "'p board \<Rightarrow> 'p board option" where
  "pop b = (case stack b of [] \<Rightarrow> None | (p, m) # rest \<Rightarrow> Some \<lparr>cur = p, stack = rest\<rparr>)"

text \<open>Square names: \<^verbatim>\<open>chess.SQUARE_NAMES\<close>, \<^verbatim>\<open>chess.parse_square\<close> (raises \<^verbatim>\<open>ValueError\<close> on
  anything that is not a square name), \<^verbatim>\<open>chess.square_name\<close>, \<^verbatim>\<open>chess.square_rank\<close>.\<close>

definition SQUARE_NAMES :: "string list" where
  "SQUARE_NAMES = concat (map (\<lambda>r. map (\<lambda>f. [f, r]) ''abcdefgh'') ''12345678'')"

fun index_of :: "'a list \<Rightarrow> 'a \<Rightarrow> nat option" where
  "index_of [] x = None"
| "index_of (y # ys) x = (if x = y then Some 0 else map_option Suc (index_of ys x))"

definition parse_square :: "string option \<Rightarrow> nat option" where
  "parse_square name = (case name of None \<Rightarrow> None | Some s \<Rightarrow> index_of SQUARE_NAMES s)"

definition square_name :: "nat \<Rightarrow> string" where
  "square_name sq = [''abcdefgh'' ! (sq mod 8), ''12345678'' ! (sq div 8)]"

definition square_rank :: "nat \<Rightarrow> nat" where
  "square_rank sq = sq div 8"

definition piece_name :: "nat \<Rightarrow> string" where
  "piece_name t = ['''', ''pawn'', ''knight'', ''bishop'', ''rook'', ''queen'', ''king''] ! t"

section \<open>What the engine process and the random generator may answer\<close>

text \<open>
  The outcome of one \<^verbatim>\<open>engine.play\<close> call: a result carrying a move (or no move), no
  result at all, \<^verbatim>\<open>EngineTerminatedError\<close>, or any other exception.
  The outcome of one \<^verbatim>\<open>engine.configure\<close> call: success, \<^verbatim>\<open>EngineError\<close> (of which
  \<^verbatim>\<open>EngineTerminatedError\<close> is a subclass), or any other exception.
  Each operation below receives the outcomes of the calls it may make as arguments, and
  the number \<open>rnd\<close> that \<^verbatim>\<open>random.choice\<close> would draw.
\<close>

datatype play_outcome = Played "move option" | NoResult | Terminated | PlayFailure

datatype configure_outcome = Configured | ConfigEngineError | ConfigFailure

text \<open>Calls that leave the object: cache lookups, engine requests, the random fallback.\<close>

datatype 'k event =
    CacheLookup 'k
  | EnginePlay
  | EngineConfigure nat
  | EngineAnalyse
  | RandomMove

datatype error =
    BadRequest string
  | Unhandled string

section \<open>\<^verbatim>\<open>chess_game.py\<close>: the class \<^verbatim>\<open>ChessGame\<close>\<close>

record ('p, 'k) ChessGame =
  board :: "'p board"
  mode :: string
  engine :: bool
  difficulty_level :: int
  show_hints :: bool
  current_evaluation :: string
  last_move :: "move option"
  move_cache :: "'k \<rightharpoonup> move"
  move_history :: "string list"
  events :: "'k event list"

text \<open>
  \<^verbatim>\<open>__init__\<close>: \<open>started\<close> says whether \<^verbatim>\<open>popen_uci\<close> returned an engine; a failure of the
  first \<^verbatim>\<open>configure\<close> is caught in either \<^verbatim>\<open>except\<close> clause and the engine stays bound.
\<close>

definition ChessGame_init :: "('p, 'k) rules \<Rightarrow> string \<Rightarrow> bool \<Rightarrow> ('p, 'k) ChessGame" where
  "ChessGame_init R md started =
     \<lparr>board = new_board R, mode = md, engine = started, difficulty_level = 3,
      show_hints = True, current_evaluation = ''0.0'', last_move = None,
      move_cache = Map.empty, move_history = [],
      events = (if started then [EngineConfigure 20] else [])\<rparr>"

definition emit :: "'k event \<Rightarrow> ('p, 'k) ChessGame \<Rightarrow> ('p, 'k) ChessGame" where
  "emit e g = g\<lparr>events := events g @ [e]\<rparr>"

definition ChessGame_get_random_move ::
  "('p, 'k) rules \<Rightarrow> ('p, 'k) ChessGame \<Rightarrow> nat \<Rightarrow> move option \<times> ('p, 'k) ChessGame" where
  "ChessGame_get_random_move R g rnd =
     (let legal = legal_moves R (cur (board g))
      in (if legal = [] then None else Some (legal ! (rnd mod length legal)),
          emit RandomMove g))"

definition random_fallback ::
  "('p, 'k) rules \<Rightarrow> ('p, 'k) ChessGame \<Rightarrow> nat
     \<Rightarrow> (error + move option) \<times> ('p, 'k) ChessGame" where
  "random_fallback R g rnd =
     (case ChessGame_get_random_move R g rnd of (r, g') \<Rightarrow> (Inr r, g'))"

text \<open>
  The part of \<^verbatim>\<open>get_engine_move\<close> after \<^verbatim>\<open>engine.play\<close> has answered: a legal move is
  cached and returned, the two \<^verbatim>\<open>StockfishError\<close>s and \<^verbatim>\<open>EngineTerminatedError\<close> are
  caught and fall back to a random move, any other exception propagates.
\<close>

fun engine_reply ::
  "('p, 'k) rules \<Rightarrow> ('p, 'k) ChessGame \<Rightarrow> 'k \<Rightarrow> nat \<Rightarrow> play_outcome
     \<Rightarrow> (error + move option) \<times> ('p, 'k) ChessGame" where
  "engine_reply R g board_fen rnd (Played (Some m)) =
     (if m \<in> set (legal_moves R (cur (board g)))
      then (Inr (Some m), g\<lparr>move_cache := (move_cache g)(board_fen \<mapsto> m)\<rparr>)
      else random_fallback R g rnd)"
| "engine_reply R g board_fen rnd (Played None) = random_fallback R g rnd"
| "engine_reply R g board_fen rnd NoResult = random_fallback R g rnd"
| "engine_reply R g board_fen rnd Terminated = random_fallback R g rnd"
| "engine_reply R g board_fen rnd PlayFailure = (Inl (Unhandled ''engine.play''), g)"

definition ChessGame_get_engine_move ::
  "('p, 'k) rules \<Rightarrow> ('p, 'k) ChessGame \<Rightarrow> play_outcome \<Rightarrow> nat
     \<Rightarrow> (error + move option) \<times> ('p, 'k) ChessGame" where
  "ChessGame_get_engine_move R g reply rnd =
     (if is_game_over R (board g) then (Inr None, g)
      else
        let board_fen = fen R (cur (board g));
            g1 = emit (CacheLookup board_fen) g
        in (case move_cache g1 board_fen of
              Some m \<Rightarrow> (Inr (Some m), g1)
            | None \<Rightarrow>
                (if \<not> engine g1 then random_fallback R g1 rnd
                 else engine_reply R (emit EnginePlay g1) board_fen rnd reply)))"

definition skill_level :: "int \<Rightarrow> nat" where
  "skill_level level =
     (if level = 1 then 0 else if level = 2 then 5 else if level = 3 then 10
      else if level = 4 then 20 else 10)"

definition ChessGame_set_difficulty ::
  "('p, 'k) ChessGame \<Rightarrow> int \<Rightarrow> configure_outcome \<Rightarrow> (error + unit) \<times> ('p, 'k) ChessGame" where
  "ChessGame_set_difficulty g level reply =
     (let g1 = g\<lparr>difficulty_level := level\<rparr>
      in if \<not> engine g1 then (Inr (), g1)
         else
           let g2 = emit (EngineConfigure (skill_level level)) g1
           in (case reply of
                 Configured \<Rightarrow> (Inr (), g2)
               | ConfigEngineError \<Rightarrow> (Inr (), g2)
               | ConfigFailure \<Rightarrow> (Inl (Unhandled ''engine.configure''), g2)))"

definition ChessGame_make_move ::
  "('p, 'k) rules \<Rightarrow> ('p, 'k) ChessGame \<Rightarrow> move \<Rightarrow> (error + bool) \<times> ('p, 'k) ChessGame" where
  "ChessGame_make_move R g m =
     (if m \<in> set (legal_moves R (cur (board g))) then
        (case san R (cur (board g)) m of
           None \<Rightarrow> (Inl (Unhandled ''board.san''), g)
         | Some san_move \<Rightarrow>
             (Inr True, g\<lparr>board := push R (board g) m, last_move := Some m,
                          move_history := move_history g @ [san_move]\<rparr>))
      else (Inr False, g))"

definition ChessGame_undo_move ::
  "('p, 'k) ChessGame \<Rightarrow> (error + bool) \<times> ('p, 'k) ChessGame" where
  "ChessGame_undo_move g =
     (if move_stack (board g) \<noteq> [] then
        (case pop (board g) of
           None \<Rightarrow> (Inl (Unhandled ''board.pop''), g)
         | Some b \<Rightarrow>
             let g1 = g\<lparr>board := b\<rparr>
             in (Inr True,
                 if move_history g1 \<noteq> [] then g1\<lparr>move_history := butlast (move_history g1)\<rparr>
                 else g1))
      else (Inr False, g))"

section \<open>\<^verbatim>\<open>main.py\<close>: the web application\<close>

text \<open>
  A session is the dictionary stored in \<^verbatim>\<open>active_games\<close>; the application state is that
  table, whether the manager holds an engine, and the calls made on the engine so far.
  A handler returns its JSON answer, or the error it answers with: \<open>BadRequest\<close> is a
  400 reply with its message, \<open>Unhandled\<close> an exception that leaves the handler. In both
  cases the state is the one the handler leaves behind.
\<close>

record hint =
  hint_from :: string
  hint_to :: string
  explanation :: string

record 'p game =
  game_board :: "'p board"
  game_mode :: string
  human_is_white :: bool
  difficulty :: int
  game_show_hints :: bool
  game_move_history :: "string list"
  last_engine_hint :: "hint option"

record ('p, 'k) app =
  active_games :: "string \<rightharpoonup> 'p game"
  manager_engine :: bool
  calls :: "'k event list"

definition note_call :: "'k event \<Rightarrow> ('p, 'k) app \<Rightarrow> ('p, 'k) app" where
  "note_call e A = A\<lparr>calls := calls A @ [e]\<rparr>"

definition put_game :: "string \<Rightarrow> 'p game \<Rightarrow> ('p, 'k) app \<Rightarrow> ('p, 'k) app" where
  "put_game gid g A = A\<lparr>active_games := (active_games A)(gid \<mapsto> g)\<rparr>"

text \<open>\<^verbatim>\<open>not game_id or game_id not in active_games\<close>, turned around.\<close>

definition find_game :: "('p, 'k) app \<Rightarrow> string option \<Rightarrow> (string \<times> 'p game) option" where
  "find_game A game_id =
     (case game_id of
        None \<Rightarrow> None
      | Some gid \<Rightarrow>
          (if gid = [] then None
           else (case active_games A gid of None \<Rightarrow> None | Some g \<Rightarrow> Some (gid, g))))"

subsection \<open>\<^verbatim>\<open>ChessGameManager\<close>\<close>

definition ChessGameManager_get_random_move ::
  "('p, 'k) rules \<Rightarrow> ('p, 'k) app \<Rightarrow> 'p board \<Rightarrow> nat \<Rightarrow> move option \<times> ('p, 'k) app" where
  "ChessGameManager_get_random_move R A b rnd =
     (let legal = legal_moves R (cur b)
      in (if legal \<noteq> [] then Some (legal ! (rnd mod length legal)) else None,
          note_call RandomMove A))"

text \<open>
  \<^verbatim>\<open>get_engine_move(board, difficulty)\<close>: the difficulty (\<open>think\<close>) only scales the thinking time of
  the request. The engine's move is returned as it comes, without a legality check;
  every exception is caught.
\<close>

fun manager_reply ::
  "('p, 'k) rules \<Rightarrow> ('p, 'k) app \<Rightarrow> 'p board \<Rightarrow> nat \<Rightarrow> play_outcome
     \<Rightarrow> move option \<times> ('p, 'k) app" where
  "manager_reply R A b rnd (Played (Some m)) =
     (if move_bool m then (Some m, A) else ChessGameManager_get_random_move R A b rnd)"
| "manager_reply R A b rnd (Played None) = ChessGameManager_get_random_move R A b rnd"
| "manager_reply R A b rnd NoResult = ChessGameManager_get_random_move R A b rnd"
| "manager_reply R A b rnd Terminated = ChessGameManager_get_random_move R A b rnd"
| "manager_reply R A b rnd PlayFailure = ChessGameManager_get_random_move R A b rnd"

definition ChessGameManager_get_engine_move ::
  "('p, 'k) rules \<Rightarrow> ('p, 'k) app \<Rightarrow> 'p board \<Rightarrow> int \<Rightarrow> play_outcome \<Rightarrow> nat
     \<Rightarrow> move option \<times> ('p, 'k) app" where
  "ChessGameManager_get_engine_move R A b think reply rnd =
     (if \<not> manager_engine A then ChessGameManager_get_random_move R A b rnd
      else manager_reply R (note_call EnginePlay A) b rnd reply)"

text \<open>\<^verbatim>\<open>chess.piece_name(piece.piece_type).capitalize()\<close>, for the piece types 1..6.\<close>

definition piece_name_capitalized :: "nat \<Rightarrow> string" where
  "piece_name_capitalized t =
     ['''', ''Pawn'', ''Knight'', ''Bishop'', ''Rook'', ''Queen'', ''King''] ! t"

definition explain_move :: "('p, 'k) rules \<Rightarrow> 'p board \<Rightarrow> move \<Rightarrow> string" where
  "explain_move R b m =
     (case piece_at R (cur b) (from_square m) of
        None \<Rightarrow> ''Invalid move''
      | Some pc \<Rightarrow>
          piece_name_capitalized (piece_type pc) @ '' from '' @ square_name (from_square m)
            @ '' to '' @ square_name (to_square m)
            @ (if is_capture R (cur b) m
               then (case piece_at R (cur b) (to_square m) of
                       None \<Rightarrow> []
                     | Some captured \<Rightarrow> '', capturing '' @ piece_name (piece_type captured))
               else [])
            @ (if is_check R (cur (push R b m)) then '', giving check'' else []))"

text \<open>
  \<^verbatim>\<open>get_best_move(board)\<close>: a reply without a move makes \<^verbatim>\<open>explain_move\<close> raise, which
  the \<^verbatim>\<open>except\<close> clause turns into the random fallback like every other failure.
\<close>

fun best_reply ::
  "('p, 'k) rules \<Rightarrow> ('p, 'k) app \<Rightarrow> 'p board \<Rightarrow> nat \<Rightarrow> play_outcome
     \<Rightarrow> (move option \<times> string) \<times> ('p, 'k) app" where
  "best_reply R A b rnd (Played (Some m)) = ((Some m, explain_move R b m), A)"
| "best_reply R A b rnd other =
     (case ChessGameManager_get_random_move R A b rnd of
        (r, A') \<Rightarrow> ((r, ''Engine error''), A'))"

definition ChessGameManager_get_best_move ::
  "('p, 'k) rules \<Rightarrow> ('p, 'k) app \<Rightarrow> 'p board \<Rightarrow> play_outcome \<Rightarrow> nat
     \<Rightarrow> (move option \<times> string) \<times> ('p, 'k) app" where
  "ChessGameManager_get_best_move R A b reply rnd =
     (if \<not> manager_engine A
      then (case ChessGameManager_get_random_move R A b rnd of
              (r, A') \<Rightarrow> ((r, ''No engine available''), A'))
      else best_reply R (note_call EnginePlay A) b rnd reply)"

text \<open>
  \<^verbatim>\<open>analyze_position(board)\<close>: scores are kept in centipawns (the code reports them divided
  by 100.0); every exception is caught. For a mate score the code calls \<^verbatim>\<open>score.mate()\<close>
  on the engine's score object, which has no such method (only its \<^verbatim>\<open>white()\<close> and
  \<^verbatim>\<open>black()\<close> views have): the \<^verbatim>\<open>AttributeError\<close> is caught like every exception and
  the neutral evaluation is answered.
\<close>

datatype analyse_outcome = Score int | Mate int | NoScore | AnalyseFailure

record evaluation =
  score :: "int option"
  mate :: "int option"

fun evaluation_of :: "analyse_outcome \<Rightarrow> evaluation" where
  "evaluation_of (Score cp) = \<lparr>score = Some cp, mate = None\<rparr>"
| "evaluation_of (Mate n) = \<lparr>score = Some 0, mate = None\<rparr>"
| "evaluation_of NoScore = \<lparr>score = Some 0, mate = None\<rparr>"
| "evaluation_of AnalyseFailure = \<lparr>score = Some 0, mate = None\<rparr>"

definition ChessGameManager_analyze_position ::
  "('p, 'k) app \<Rightarrow> analyse_outcome \<Rightarrow> evaluation \<times> ('p, 'k) app" where
  "ChessGameManager_analyze_position A reply =
     (if \<not> manager_engine A then (\<lparr>score = Some 0, mate = None\<rparr>, A)
      else (evaluation_of reply, note_call EngineAnalyse A))"

subsection \<open>What the handlers answer\<close>

text \<open>The fields every answer carries: position key, flags, side to move, move history.\<close>

record 'k state_view =
  view_fen :: 'k
  isCheck :: bool
  isCheckmate :: bool
  isStalemate :: bool
  isGameOver :: bool
  view_turn :: string
  moveHistory :: "string list"

definition view :: "('p, 'k) rules \<Rightarrow> 'p game \<Rightarrow> 'k state_view" where
  "view R g =
     (let b = game_board g
      in \<lparr>view_fen = fen R (cur b), isCheck = is_check R (cur b),
          isCheckmate = is_checkmate R (cur b), isStalemate = is_stalemate R (cur b),
          isGameOver = is_game_over R b,
          view_turn = (if turn R (cur b) then ''white'' else ''black''),
          moveHistory = game_move_history g\<rparr>)"

record move_info =
  info_from :: string
  info_to :: string
  info_san :: string

datatype 'k response =
    Created string "'k state_view"
  | Moved "'k state_view" move_info "move_info option" evaluation
  | Hinted hint
  | Undone "'k state_view"
  | DifficultySet int

subsection \<open>\<^verbatim>\<open>/api/new_game\<close>\<close>

text \<open>\<^verbatim>\<open>str(int(time.time()))\<close>, for the whole seconds \<open>now\<close> of the clock.\<close>

fun str_nat :: "nat \<Rightarrow> string" where
  "str_nat n =
     (if n < 10 then [''0123456789'' ! n]
      else str_nat (n div 10) @ [''0123456789'' ! (n mod 10)])"

declare str_nat.simps [simp del]

record new_game_request =
  req_mode :: "string option"
  req_color :: "string option"

text \<open>
  Lines 180 to 182: the engine's move is pushed on the board first, and its notation is
  asked of the board after that.
\<close>

fun first_move ::
  "('p, 'k) rules \<Rightarrow> ('p, 'k) app \<Rightarrow> string \<Rightarrow> 'p game \<Rightarrow> move option
     \<Rightarrow> (error + 'k response) \<times> ('p, 'k) app" where
  "first_move R A gid g None = (Inr (Created gid (view R g)), A)"
| "first_move R A gid g (Some m) =
     (if move_bool m then
        let g1 = g\<lparr>game_board := push R (game_board g) m\<rparr>;
            A1 = put_game gid g1 A
        in (case san R (cur (game_board g1)) m of
              None \<Rightarrow> (Inl (Unhandled ''board.san''), A1)
            | Some s \<Rightarrow>
                let g2 = g1\<lparr>game_move_history := game_move_history g1 @ [s]\<rparr>
                in (Inr (Created gid (view R g2)), put_game gid g2 A1))
      else (Inr (Created gid (view R g)), A))"

definition new_game ::
  "('p, 'k) rules \<Rightarrow> ('p, 'k) app \<Rightarrow> new_game_request \<Rightarrow> nat \<Rightarrow> play_outcome \<Rightarrow> nat
     \<Rightarrow> (error + 'k response) \<times> ('p, 'k) app" where
  "new_game R A req now reply rnd =
     (let md = (case req_mode req of None \<Rightarrow> ''Play'' | Some s \<Rightarrow> s);
          white = ((case req_color req of None \<Rightarrow> ''white'' | Some c \<Rightarrow> c) = ''white'');
          game_id = str_nat now;
          g = \<lparr>game_board = new_board R, game_mode = md, human_is_white = white,
               difficulty = 3, game_show_hints = True, game_move_history = [],
               last_engine_hint = None\<rparr>;
          A1 = put_game game_id g A
      in if \<not> white \<and> md \<noteq> ''Self-Practice''
         then (case ChessGameManager_get_engine_move R A1 (game_board g) 3 reply rnd of
                 (engine_move, A2) \<Rightarrow> first_move R A2 game_id g engine_move)
         else (Inr (Created game_id (view R g)), A1))"

subsection \<open>\<^verbatim>\<open>/api/move\<close>\<close>

record move_request =
  move_gameId :: "string option"
  move_from :: "string option"
  move_to :: "string option"

text \<open>Lines 212 to 225: a pawn that reaches the last rank is promoted to a queen.\<close>

definition requested_move :: "('p, 'k) rules \<Rightarrow> 'p \<Rightarrow> nat \<Rightarrow> nat \<Rightarrow> move" where
  "requested_move R p from_idx to_idx =
     Move from_idx to_idx
       (case piece_at R p from_idx of
          None \<Rightarrow> None
        | Some pc \<Rightarrow>
            (if piece_type pc = PAWN
                \<and> ((square_rank to_idx = 7 \<and> color pc) \<or> (square_rank to_idx = 0 \<and> \<not> color pc))
             then Some QUEEN else None))"

text \<open>Lines 280 to 284: the evaluation is added and the answer sent.\<close>

definition finish_move ::
  "('p, 'k) rules \<Rightarrow> ('p, 'k) app \<Rightarrow> 'p game \<Rightarrow> move_info \<Rightarrow> move_info option
     \<Rightarrow> analyse_outcome \<Rightarrow> (error + 'k response) \<times> ('p, 'k) app" where
  "finish_move R A g lastMove engineMove areply =
     (case ChessGameManager_analyze_position A areply of
        (eval_data, A') \<Rightarrow> (Inr (Moved (view R g) lastMove engineMove eval_data), A'))"

text \<open>Lines 260 to 278: the engine's reply, its notation taken before it is pushed.\<close>

fun engine_answer ::
  "('p, 'k) rules \<Rightarrow> ('p, 'k) app \<Rightarrow> string \<Rightarrow> 'p game \<Rightarrow> move_info \<Rightarrow> analyse_outcome
     \<Rightarrow> move option \<Rightarrow> (error + 'k response) \<times> ('p, 'k) app" where
  "engine_answer R A gid g lastMove areply None = finish_move R A g lastMove None areply"
| "engine_answer R A gid g lastMove areply (Some m) =
     (if move_bool m then
        (case san R (cur (game_board g)) m of
           None \<Rightarrow> (Inl (Unhandled ''board.san''), A)
         | Some engine_san \<Rightarrow>
             let g1 = g\<lparr>game_board := push R (game_board g) m,
                        game_move_history := game_move_history g @ [engine_san]\<rparr>
             in finish_move R (put_game gid g1 A) g1 lastMove
                  (Some \<lparr>info_from = square_name (from_square m),
                         info_to = square_name (to_square m), info_san = engine_san\<rparr>)
                  areply)
      else finish_move R A g lastMove None areply)"

text \<open>
  Lines 233 to 284: the move is legal and is made. Both square names of the request
  have been parsed by then, so they are strings.
\<close>

definition apply_legal ::
  "('p, 'k) rules \<Rightarrow> ('p, 'k) app \<Rightarrow> string \<Rightarrow> 'p game \<Rightarrow> move_request \<Rightarrow> move
     \<Rightarrow> play_outcome \<Rightarrow> nat \<Rightarrow> analyse_outcome \<Rightarrow> (error + 'k response) \<times> ('p, 'k) app" where
  "apply_legal R A gid g req m reply rnd areply =
     (case san R (cur (game_board g)) m of
        None \<Rightarrow> (Inl (Unhandled ''board.san''), A)
      | Some san_move \<Rightarrow>
          let g1 = g\<lparr>game_board := push R (game_board g) m,
                     game_move_history := game_move_history g @ [san_move]\<rparr>;
              A1 = put_game gid g1 A;
              b = game_board g1;
              lastMove = \<lparr>info_from = the (move_from req), info_to = the (move_to req),
                          info_san = san_move\<rparr>
          in if game_mode g1 = ''Play'' \<and> \<not> is_game_over R b then
               (let is_human_turn = (human_is_white g1 \<and> turn R (cur b))
                                      \<or> (\<not> human_is_white g1 \<and> \<not> turn R (cur b))
                in if \<not> is_human_turn
                   then (case ChessGameManager_get_engine_move R A1 b (difficulty g1) reply rnd of
                           (engine_move, A2) \<Rightarrow>
                             engine_answer R A2 gid g1 lastMove areply engine_move)
                   else finish_move R A1 g1 lastMove None areply)
             else finish_move R A1 g1 lastMove None areply)"

definition make_move ::
  "('p, 'k) rules \<Rightarrow> ('p, 'k) app \<Rightarrow> move_request \<Rightarrow> play_outcome \<Rightarrow> nat \<Rightarrow> analyse_outcome
     \<Rightarrow> (error + 'k response) \<times> ('p, 'k) app" where
  "make_move R A req reply rnd areply =
     (case find_game A (move_gameId req) of
        None \<Rightarrow> (Inl (BadRequest ''Invalid game ID''), A)
      | Some (gid, g) \<Rightarrow>
          (case parse_square (move_from req) of
             None \<Rightarrow> (Inl (Unhandled ''parse_square''), A)
           | Some from_idx \<Rightarrow>
               (case parse_square (move_to req) of
                  None \<Rightarrow> (Inl (Unhandled ''parse_square''), A)
                | Some to_idx \<Rightarrow>
                    (let m = requested_move R (cur (game_board g)) from_idx to_idx
                     in if m \<notin> set (legal_moves R (cur (game_board g)))
                        then (Inl (BadRequest ''Illegal move''), A)
                        else apply_legal R A gid g req m reply rnd areply))))"

subsection \<open>\<^verbatim>\<open>/api/hint\<close>\<close>

fun store_hint ::
  "('p, 'k) app \<Rightarrow> string \<Rightarrow> 'p game \<Rightarrow> move option \<Rightarrow> string
     \<Rightarrow> (error + 'k response) \<times> ('p, 'k) app" where
  "store_hint A gid g None expl = (Inl (BadRequest ''Could not generate hint''), A)"
| "store_hint A gid g (Some m) expl =
     (if move_bool m then
        let h = \<lparr>hint_from = square_name (from_square m), hint_to = square_name (to_square m),
                 explanation = expl\<rparr>
        in (Inr (Hinted h), put_game gid (g\<lparr>last_engine_hint := Some h\<rparr>) A)
      else (Inl (BadRequest ''Could not generate hint''), A))"

definition get_hint ::
  "('p, 'k) rules \<Rightarrow> ('p, 'k) app \<Rightarrow> string option \<Rightarrow> play_outcome \<Rightarrow> nat
     \<Rightarrow> (error + 'k response) \<times> ('p, 'k) app" where
  "get_hint R A game_id reply rnd =
     (case find_game A game_id of
        None \<Rightarrow> (Inl (BadRequest ''Invalid game ID''), A)
      | Some (gid, g) \<Rightarrow>
          (case ChessGameManager_get_best_move R A (game_board g) reply rnd of
             ((best_move, expl), A') \<Rightarrow> store_hint A' gid g best_move expl))"

subsection \<open>\<^verbatim>\<open>/api/undo\<close>\<close>

text \<open>
  The block that occurs three times in \<^verbatim>\<open>undo_move\<close>: if the board has moves, pop the
  board, and pop the history if it has entries.
\<close>

definition undo_once :: "'p game \<Rightarrow> error + 'p game" where
  "undo_once g =
     (if length (move_stack (game_board g)) > 0 then
        (case pop (game_board g) of
           None \<Rightarrow> Inl (Unhandled ''board.pop'')
         | Some b \<Rightarrow>
             Inr (if game_move_history g \<noteq> []
                  then g\<lparr>game_board := b, game_move_history := butlast (game_move_history g)\<rparr>
                  else g\<lparr>game_board := b\<rparr>))
      else Inr g)"

definition undo_moves :: "'p game \<Rightarrow> error + 'p game" where
  "undo_moves g =
     (if game_mode g = ''Play''
      then (case undo_once g of Inl e \<Rightarrow> Inl e | Inr g1 \<Rightarrow> undo_once g1)
      else undo_once g)"

definition undo_move ::
  "('p, 'k) rules \<Rightarrow> ('p, 'k) app \<Rightarrow> string option
     \<Rightarrow> (error + 'k response) \<times> ('p, 'k) app" where
  "undo_move R A game_id =
     (case find_game A game_id of
        None \<Rightarrow> (Inl (BadRequest ''Invalid game ID''), A)
      | Some (gid, g) \<Rightarrow>
          (case undo_moves g of
             Inl e \<Rightarrow> (Inl e, A)
           | Inr g' \<Rightarrow> (Inr (Undone (view R g')), put_game gid g' A)))"

subsection \<open>\<^verbatim>\<open>/api/set_difficulty\<close>\<close>

text \<open>
  The level of the request is an integer here (\<^verbatim>\<open>int(difficulty)\<close> is then the identity),
  3 when the request has none.
\<close>

definition set_difficulty ::
  "('p, 'k) app \<Rightarrow> string option \<Rightarrow> int option \<Rightarrow> (error + 'k response) \<times> ('p, 'k) app" where
  "set_difficulty A game_id level =
     (case find_game A game_id of
        None \<Rightarrow> (Inl (BadRequest ''Invalid game ID''), A)
      | Some (gid, g) \<Rightarrow>
          (let d = max 1 (min 4 (case level of None \<Rightarrow> 3 | Some l \<Rightarrow> l))
           in (Inr (DifficultySet d), put_game gid (g\<lparr>difficulty := d\<rparr>) A)))"

section \<open>A fragment of the rules, to run the code on\<close>

text \<open>
  To evaluate the operations on concrete games, the rules are instantiated with a
  fragment of chess: the 64 squares with their pieces and the side to move, pawn advances
  and knight jumps as the moves. On the initial position and on the positions one move
  after it these are exactly the legal moves of chess, no move there captures or gives
  check, and the notation of a move is the name of its target square, after \<open>N\<close> for a
  knight. As in python-chess, the notation of a move exists only while a piece stands
  on the square the move starts from. A position is its own key.
\<close>

record position =
  squares :: "piece option list"
  white_to_move :: bool

definition pc :: "nat \<Rightarrow> bool \<Rightarrow> piece option" where
  "pc t c = Some \<lparr>piece_type = t, color = c\<rparr>"

definition initial_position :: position where
  "initial_position =
     \<lparr>squares = map (\<lambda>t. pc t True) [4, 2, 3, 5, 6, 3, 2, 4] @ replicate 8 (pc 1 True)
                 @ replicate 32 None
                 @ replicate 8 (pc 1 False) @ map (\<lambda>t. pc t False) [4, 2, 3, 5, 6, 3, 2, 4],
      white_to_move = True\<rparr>"

definition at :: "position \<Rightarrow> nat \<Rightarrow> piece option" where
  "at p sq = (if sq < 64 then squares p ! sq else None)"

definition play :: "position \<Rightarrow> move \<Rightarrow> position" where
  "play p m =
     \<lparr>squares = (squares p)[from_square m := None, to_square m := at p (from_square m)],
      white_to_move = \<not> white_to_move p\<rparr>"

definition pawn_advances :: "position \<Rightarrow> nat \<Rightarrow> move list" where
  "pawn_advances p sq =
     (if white_to_move p then
        (if sq + 8 < 64 \<and> at p (sq + 8) = None then
           Move sq (sq + 8) None
             # (if sq div 8 = 1 \<and> at p (sq + 16) = None then [Move sq (sq + 16) None] else [])
         else [])
      else
        (if 8 \<le> sq \<and> at p (sq - 8) = None then
           Move sq (sq - 8) None
             # (if sq div 8 = 6 \<and> at p (sq - 16) = None then [Move sq (sq - 16) None] else [])
         else []))"

definition knight_jumps :: "position \<Rightarrow> nat \<Rightarrow> move list" where
  "knight_jumps p sq =
     map (\<lambda>t. Move sq t None)
       (filter (\<lambda>t. (case at p t of None \<Rightarrow> True | Some q \<Rightarrow> color q \<noteq> white_to_move p)
                  \<and> (let df = (if t mod 8 < sq mod 8 then sq mod 8 - t mod 8 else t mod 8 - sq mod 8);
                          dr = (if t div 8 < sq div 8 then sq div 8 - t div 8 else t div 8 - sq div 8)
                      in (df = 1 \<and> dr = 2) \<or> (df = 2 \<and> dr = 1)))
          [0..<64])"

definition moves_from :: "position \<Rightarrow> nat \<Rightarrow> move list" where
  "moves_from p sq =
     (case at p sq of
        None \<Rightarrow> []
      | Some q \<Rightarrow>
          (if color q \<noteq> white_to_move p then []
           else if piece_type q = PAWN then pawn_advances p sq
           else if piece_type q = KNIGHT then knight_jumps p sq
           else []))"

definition fragment_moves :: "position \<Rightarrow> move list" where
  "fragment_moves p = concat (map (moves_from p) [0..<64])"

definition fragment_san :: "position \<Rightarrow> move \<Rightarrow> string option" where
  "fragment_san p m =
     (case at p (from_square m) of
        None \<Rightarrow> None
      | Some q \<Rightarrow>
          Some ((if piece_type q = PAWN then [] else [''.PNBRQK'' ! piece_type q])
                  @ square_name (to_square m)))"

definition fragment :: "(position, position) rules" where
  "fragment =
     \<lparr>start_pos = initial_position, legal_moves = fragment_moves, apply_move = play,
      san = fragment_san, fen = (\<lambda>p. p), turn = white_to_move, piece_at = at,
      is_capture = (\<lambda>p m. at p (to_square m) \<noteq> None), is_check = (\<lambda>p. False),
      is_checkmate = (\<lambda>p. False), is_stalemate = (\<lambda>p. False),
      is_game_over = (\<lambda>b. fragment_moves (cur b) = [])\<rparr>"

text \<open>The moves e2-e4, e7-e5 and (illegal at the start) e2-e5, and a fresh application.\<close>

definition e2e4 :: move where "e2e4 = Move 12 28 None"
definition e7e5 :: move where "e7e5 = Move 52 36 None"
definition e2e5 :: move where "e2e5 = Move 12 36 None"

definition fresh_app :: "bool \<Rightarrow> (position, position) app" where
  "fresh_app started = \<lparr>active_games = Map.empty, manager_engine = started, calls = []\<rparr>"

section \<open>Notions the properties are stated with\<close>

text \<open>The history of a game object has one entry per move on its board.\<close>

definition history_matches_stack :: "('p, 'k) ChessGame \<Rightarrow> bool" where
  "history_matches_stack g \<longleftrightarrow> length (move_history g) = length (move_stack (board g))"

definition is_engine_play :: "'k event \<Rightarrow> bool" where
  "is_engine_play e = (case e of EnginePlay \<Rightarrow> True | _ \<Rightarrow> False)"

definition is_random_move :: "'k event \<Rightarrow> bool" where
  "is_random_move e = (case e of RandomMove \<Rightarrow> True | _ \<Rightarrow> False)"

text \<open>The number of \<^verbatim>\<open>engine.play\<close> requests among some calls.\<close>

definition engine_calls :: "'k event list \<Rightarrow> nat" where
  "engine_calls es = length (filter is_engine_play es)"

text \<open>The calls a game object made between an earlier state and a later one.\<close>

definition new_events :: "('p, 'k) ChessGame \<Rightarrow> ('p, 'k) ChessGame \<Rightarrow> 'k event list" where
  "new_events g g' = drop (length (events g)) (events g')"

text \<open>
  Concrete games: a new game object in Play mode, and one whose board holds the two
  kings only, where the game is over (no move in the fragment, a draw by insufficient
  material in chess).
\<close>

definition bare_kings :: position where
  "bare_kings =
     \<lparr>squares = replicate 4 None @ [pc 6 True] @ replicate 55 None @ [pc 6 False]
                 @ replicate 3 None,
      white_to_move = True\<rparr>"

definition opening_game :: "bool \<Rightarrow> (position, position) ChessGame" where
  "opening_game started = ChessGame_init fragment ''Play'' started"

definition finished_game :: "(position, position) ChessGame" where
  "finished_game = (opening_game True)\<lparr>board := \<lparr>cur = bare_kings, stack = []\<rparr>\<rparr>"

text \<open>Two calls of \<^verbatim>\<open>get_engine_move\<close> in a row, the second on the state the first left.\<close>

definition get_engine_move_twice ::
  "('p, 'k) rules \<Rightarrow> ('p, 'k) ChessGame \<Rightarrow> play_outcome \<Rightarrow> nat \<Rightarrow> play_outcome \<Rightarrow> nat
     \<Rightarrow> ((error + move option) \<times> (error + move option)) \<times> ('p, 'k) ChessGame" where
  "get_engine_move_twice R g reply1 rnd1 reply2 rnd2 =
     (case ChessGame_get_engine_move R g reply1 rnd1 of
        (r1, g1) \<Rightarrow>
          (case ChessGame_get_engine_move R g1 reply2 rnd2 of
             (r2, g2) \<Rightarrow> ((r1, r2), g2)))"

text \<open>
  The answers of \<^verbatim>\<open>engine.play\<close> after which \<^verbatim>\<open>get_engine_move\<close> goes to the random
  fallback: a move that is not legal, a result without a move, no result, and
  \<^verbatim>\<open>EngineTerminatedError\<close>. Any other exception is not among them: it is not caught.
\<close>

fun falls_back :: "('p, 'k) rules \<Rightarrow> ('p, 'k) ChessGame \<Rightarrow> play_outcome \<Rightarrow> bool" where
  "falls_back R g (Played (Some m)) \<longleftrightarrow> m \<notin> set (legal_moves R (cur (board g)))"
| "falls_back R g (Played None) \<longleftrightarrow> True"
| "falls_back R g NoResult \<longleftrightarrow> True"
| "falls_back R g Terminated \<longleftrightarrow> True"
| "falls_back R g PlayFailure \<longleftrightarrow> False"

text \<open>The new game object after its engine has suggested the illegal move e2-e5.\<close>

definition illegal_reply_game :: "(position, position) ChessGame" where
  "illegal_reply_game =
     snd (ChessGame_get_engine_move fragment (opening_game True) (Played (Some e2e5)) 7)"

text \<open>The history of a session has one entry per move on its board; the number of
  entries \<^verbatim>\<open>/api/undo\<close> is to take from it.\<close>

definition session_consistent :: "'p game \<Rightarrow> bool" where
  "session_consistent g \<longleftrightarrow> length (game_move_history g) = length (move_stack (game_board g))"

definition popped :: "'p game \<Rightarrow> nat" where
  "popped g =
     (if game_mode g = ''Play'' then min 2 (length (game_move_history g))
      else min 1 (length (game_move_history g)))"

text \<open>
  Concrete sessions: the dictionary \<^verbatim>\<open>new_game\<close> stores, the application after a Play
  session has been created as White at clock value 17, two requests for it, and the
  application and session after e2-e4 has been answered by e7-e5.
\<close>

definition new_session :: "string \<Rightarrow> bool \<Rightarrow> position game" where
  "new_session md white =
     \<lparr>game_board = new_board fragment, game_mode = md, human_is_white = white, difficulty = 3,
      game_show_hints = True, game_move_history = [], last_engine_hint = None\<rparr>"

definition white_app :: "bool \<Rightarrow> (position, position) app" where
  "white_app started =
     snd (new_game fragment (fresh_app started)
            \<lparr>req_mode = Some ''Play'', req_color = Some ''white''\<rparr> 17 NoResult 0)"

definition e2_e4 :: move_request where
  "e2_e4 = \<lparr>move_gameId = Some ''17'', move_from = Some ''e2'', move_to = Some ''e4''\<rparr>"

definition e2_e5 :: move_request where
  "e2_e5 = \<lparr>move_gameId = Some ''17'', move_from = Some ''e2'', move_to = Some ''e5''\<rparr>"

definition played_app :: "(position, position) app" where
  "played_app = snd (make_move fragment (white_app True) e2_e4 (Played (Some e7e5)) 0 (Score 30))"

definition played_session :: "position game" where
  "played_session =
     (new_session ''Play'' True)
       \<lparr>game_board := push fragment (push fragment (new_board fragment) e2e4) e7e5,
        game_move_history := [''e4'', ''e5'']\<rparr>"

text \<open>
  More concrete sessions: the one left behind when a Play game is requested as Black and
  the engine opens with e2-e4, and the application after a hint has been asked for in
  the new White session, with the hint it stores.
\<close>

definition as_black :: new_game_request where
  "as_black = \<lparr>req_mode = Some ''Play'', req_color = Some ''black''\<rparr>"

definition orphan_session :: "position game" where
  "orphan_session =
     (new_session ''Play'' False)\<lparr>game_board := push fragment (new_board fragment) e2e4\<rparr>"

definition e4_hint :: hint where
  "e4_hint = \<lparr>hint_from = ''e2'', hint_to = ''e4'', explanation = ''Pawn from e2 to e4''\<rparr>"

definition hinted_app :: "(position, position) app" where
  "hinted_app = snd (get_hint fragment (white_app True) (Some ''17'') (Played (Some e2e4)) 0)"

definition after_hint_and_move :: "(position, position) app" where
  "after_hint_and_move =
     snd (make_move fragment hinted_app e2_e4 (Played (Some e7e5)) 0 (Score 30))"

text \<open>The application in which the game requested as Black left its session behind.\<close>

definition orphan_app :: "(position, position) app" where
  "orphan_app = snd (new_game fragment (fresh_app True) as_black 17 (Played (Some e2e4)) 0)"

section \<open>Properties of the board\<close>

lemma move_stack_push: "move_stack (push R b m) = move_stack b @ [m]"
  by (simp add: move_stack_def push_def)

lemma pop_Some:
  "move_stack b \<noteq> [] \<Longrightarrow> \<exists>b'. pop b = Some b' \<and> move_stack b' = butlast (move_stack b)"
  by (cases "stack b") (auto simp: move_stack_def pop_def split: prod.splits)

section \<open>Properties of \<^verbatim>\<open>ChessGame\<close>\<close>

text \<open>
  C9. Construction, \<^verbatim>\<open>make_move\<close> and \<^verbatim>\<open>undo_move\<close> keep the length of
  \<^verbatim>\<open>move_history\<close> equal to the length of the board's move stack: a new game object has
  both empty, and each of the two operations leaves a game object with equal lengths in
  a state with equal lengths.
\<close>

theorem ChessGame_history_invariant:
  "history_matches_stack (ChessGame_init R md started)
   \<and> (history_matches_stack g \<longrightarrow> history_matches_stack (snd (ChessGame_make_move R g m)))
   \<and> (history_matches_stack g \<longrightarrow> history_matches_stack (snd (ChessGame_undo_move g)))"
proof (intro conjI impI)
  show "history_matches_stack (ChessGame_init R md started)"
    by (simp add: history_matches_stack_def ChessGame_init_def new_board_def move_stack_def)
next
  assume "history_matches_stack g"
  then show "history_matches_stack (snd (ChessGame_make_move R g m))"
    by (simp add: history_matches_stack_def ChessGame_make_move_def move_stack_push
        split: option.splits)
next
  assume inv: "history_matches_stack g"
  show "history_matches_stack (snd (ChessGame_undo_move g))"
  proof (cases "move_stack (board g) = []")
    case True
    with inv show ?thesis by (simp add: ChessGame_undo_move_def)
  next
    case False
    then obtain b' where b': "pop (board g) = Some b'"
      "move_stack b' = butlast (move_stack (board g))"
      using pop_Some by blast
    from False inv have "move_history g \<noteq> []"
      by (auto simp: history_matches_stack_def)
    with False b' inv show ?thesis
      by (simp add: ChessGame_undo_move_def history_matches_stack_def Let_def)
  qed
qed

theorem ChessGame_history_invariant_witness:
  "history_matches_stack (opening_game False)
   \<and> history_matches_stack (snd (ChessGame_make_move fragment (opening_game False) e2e4))
   \<and> move_history (snd (ChessGame_make_move fragment (opening_game False) e2e4)) = [''e4'']
   \<and> history_matches_stack
        (snd (ChessGame_undo_move (snd (ChessGame_make_move fragment (opening_game False) e2e4))))"
proof -
  have h: "move_history (snd (ChessGame_make_move fragment (opening_game False) e2e4)) = [''e4'']"
    by code_simp
  from ChessGame_history_invariant [of fragment "''Play''" False "opening_game False" e2e4]
  have a: "history_matches_stack (opening_game False)"
    and b: "history_matches_stack (snd (ChessGame_make_move fragment (opening_game False) e2e4))"
    by (simp_all add: opening_game_def)
  from b ChessGame_history_invariant [of fragment "''Play''" False
      "snd (ChessGame_make_move fragment (opening_game False) e2e4)" e2e4]
  have c: "history_matches_stack
        (snd (ChessGame_undo_move (snd (ChessGame_make_move fragment (opening_game False) e2e4))))"
    by simp
  from a b c h show ?thesis by simp
qed

text \<open>
  C10. When the game on the board is over, \<^verbatim>\<open>get_engine_move\<close> returns \<^verbatim>\<open>None\<close> and
  leaves the game object as it was: no cache lookup, no engine request and no random
  fallback has been made.
\<close>

theorem game_over_returns_none:
  "is_game_over R (board g) \<Longrightarrow>
     ChessGame_get_engine_move R g reply rnd = (Inr None, g)
     \<and> new_events g (snd (ChessGame_get_engine_move R g reply rnd)) = []"
  by (simp add: ChessGame_get_engine_move_def new_events_def)

theorem game_over_returns_none_witness:
  "is_game_over fragment (board finished_game)
   \<and> ChessGame_get_engine_move fragment finished_game (Played (Some e2e4)) 5
       = (Inr None, finished_game)"
proof -
  have h: "is_game_over fragment (board finished_game)" by code_simp
  from game_over_returns_none [OF h] h show ?thesis by simp
qed

lemma random_fallback_effect:
  "move_cache (snd (random_fallback R g rnd)) = move_cache g"
  "events (snd (random_fallback R g rnd)) = events g @ [RandomMove]"
  "board (snd (random_fallback R g rnd)) = board g"
  "engine (snd (random_fallback R g rnd)) = engine g"
  by (simp_all add: random_fallback_def ChessGame_get_random_move_def emit_def Let_def)

lemma emit_fields:
  "move_cache (emit e g) = move_cache g" "board (emit e g) = board g"
  "engine (emit e g) = engine g" "events (emit e g) = events g @ [e]"
  by (simp_all add: emit_def)

lemma engine_reply_cache:
  "move_cache (snd (engine_reply R g k rnd reply)) = move_cache g
   \<or> (\<exists>m. reply = Played (Some m) \<and> m \<in> set (legal_moves R (cur (board g)))
          \<and> engine_reply R g k rnd reply
              = (Inr (Some m), g\<lparr>move_cache := (move_cache g)(k \<mapsto> m)\<rparr>))"
  by (cases "(R, g, k, rnd, reply)" rule: engine_reply.cases)
     (simp_all add: random_fallback_effect)

lemma engine_reply_events:
  "events (snd (engine_reply R g k rnd reply)) = events g
   \<or> (events (snd (engine_reply R g k rnd reply)) = events g @ [RandomMove]
       \<and> move_cache (snd (engine_reply R g k rnd reply)) = move_cache g)"
  by (cases "(R, g, k, rnd, reply)" rule: engine_reply.cases)
     (simp_all add: random_fallback_effect)

text \<open>
  C4. A call of \<^verbatim>\<open>get_engine_move\<close> either leaves the move cache as it was, or adds one
  entry: the move the engine answered, found in the legal moves of the current position,
  under the key of that position. Whenever the call went to the random fallback, the
  cache is as it was; \<^verbatim>\<open>get_random_move\<close> itself never writes to the cache.
\<close>

theorem cache_holds_only_verified_engine_moves:
  "(move_cache (snd (ChessGame_get_engine_move R g reply rnd)) = move_cache g
    \<or> (\<exists>m. reply = Played (Some m) \<and> m \<in> set (legal_moves R (cur (board g)))
           \<and> fst (ChessGame_get_engine_move R g reply rnd) = Inr (Some m)
           \<and> move_cache (snd (ChessGame_get_engine_move R g reply rnd))
               = (move_cache g)(fen R (cur (board g)) \<mapsto> m)))
   \<and> (list_ex is_random_move (new_events g (snd (ChessGame_get_engine_move R g reply rnd)))
        \<longrightarrow> move_cache (snd (ChessGame_get_engine_move R g reply rnd)) = move_cache g)
   \<and> move_cache (snd (ChessGame_get_random_move R g rnd)) = move_cache g"
proof -
  let ?k = "fen R (cur (board g))"
  let ?g2 = "emit EnginePlay (emit (CacheLookup ?k) g)"
  let ?out = "ChessGame_get_engine_move R g reply rnd"
  have a: "move_cache (snd ?out) = move_cache g
    \<or> (\<exists>m. reply = Played (Some m) \<and> m \<in> set (legal_moves R (cur (board g)))
           \<and> fst ?out = Inr (Some m)
           \<and> move_cache (snd ?out) = (move_cache g)(?k \<mapsto> m))"
    using engine_reply_cache [of R ?g2 ?k rnd reply]
    by (auto simp: ChessGame_get_engine_move_def Let_def emit_fields random_fallback_effect
        split: option.splits)
  have b: "move_cache (snd ?out) = move_cache g"
    if "list_ex is_random_move (new_events g (snd ?out))"
    using that engine_reply_events [of R ?g2 ?k rnd reply]
    by (auto simp: ChessGame_get_engine_move_def Let_def emit_fields random_fallback_effect
        new_events_def is_random_move_def split: option.splits if_splits)
  have c: "move_cache (snd (ChessGame_get_random_move R g rnd)) = move_cache g"
    by (simp add: ChessGame_get_random_move_def emit_def Let_def)
  from a b c show ?thesis by blast
qed

theorem cache_holds_only_verified_engine_moves_witness:
  "list_ex is_random_move (new_events (opening_game True) illegal_reply_game)
   \<and> fst (ChessGame_get_engine_move fragment (opening_game True) (Played (Some e2e5)) 7)
       = Inr (Some (Move 9 25 None))
   \<and> move_cache illegal_reply_game = move_cache (opening_game True)"
proof -
  have h: "list_ex is_random_move (new_events (opening_game True) illegal_reply_game)"
    by code_simp
  have r: "fst (ChessGame_get_engine_move fragment (opening_game True) (Played (Some e2e5)) 7)
       = Inr (Some (Move 9 25 None))"
    by code_simp
  from h r cache_holds_only_verified_engine_moves
    [of fragment "opening_game True" "Played (Some e2e5)" 7]
  show ?thesis by (simp add: illegal_reply_game_def)
qed

lemma engine_calls_snoc:
  "engine_calls [] = 0"
  "engine_calls (es @ fs) = engine_calls es + engine_calls fs"
  "engine_calls (CacheLookup k # es) = engine_calls es"
  "engine_calls (RandomMove # es) = engine_calls es"
  "engine_calls (EnginePlay # es) = Suc (engine_calls es)"
  by (simp_all add: engine_calls_def is_engine_play_def)

lemma get_engine_move_cached:
  "\<not> is_game_over R (board g) \<Longrightarrow> move_cache g (fen R (cur (board g))) = Some c \<Longrightarrow>
     ChessGame_get_engine_move R g reply rnd
       = (Inr (Some c), emit (CacheLookup (fen R (cur (board g)))) g)"
  by (simp add: ChessGame_get_engine_move_def Let_def emit_fields)

lemma get_engine_move_no_engine:
  "\<not> engine g \<Longrightarrow>
     engine_calls (events (snd (ChessGame_get_engine_move R g reply rnd))) = engine_calls (events g)
     \<and> board (snd (ChessGame_get_engine_move R g reply rnd)) = board g
     \<and> engine (snd (ChessGame_get_engine_move R g reply rnd)) = engine g"
  by (simp add: ChessGame_get_engine_move_def Let_def emit_fields random_fallback_effect
      engine_calls_snoc split: option.splits)

lemma get_engine_move_legal_reply:
  assumes "\<not> is_game_over R (board g)" and "engine g"
    and "move_cache g (fen R (cur (board g))) = None"
    and "m \<in> set (legal_moves R (cur (board g)))"
  shows "ChessGame_get_engine_move R g (Played (Some m)) rnd
           = (Inr (Some m),
              (emit EnginePlay (emit (CacheLookup (fen R (cur (board g)))) g))
                \<lparr>move_cache := (move_cache g)(fen R (cur (board g)) \<mapsto> m)\<rparr>)"
  using assms by (simp add: ChessGame_get_engine_move_def Let_def emit_fields)

lemma cached_after_legal_reply:
  assumes "reply1 = Played (Some m)" and "m \<in> set (legal_moves R (cur (board g)))"
  shows "engine_calls (events (snd (get_engine_move_twice R g reply1 rnd1 reply2 rnd2)))
           \<le> engine_calls (events g) + 1
         \<and> engine_calls (events (snd (get_engine_move_twice R g reply1 rnd1 reply2 rnd2)))
             = engine_calls (events (snd (ChessGame_get_engine_move R g reply1 rnd1)))
         \<and> (engine g \<and> \<not> is_game_over R (board g) \<longrightarrow>
              snd (fst (get_engine_move_twice R g reply1 rnd1 reply2 rnd2))
                = fst (fst (get_engine_move_twice R g reply1 rnd1 reply2 rnd2))
              \<and> (\<exists>c. fst (ChessGame_get_engine_move R g reply1 rnd1) = Inr (Some c)
                     \<and> move_cache (snd (ChessGame_get_engine_move R g reply1 rnd1))
                          (fen R (cur (board g))) = Some c))"
proof -
  let ?k = "fen R (cur (board g))"
  let ?first = "ChessGame_get_engine_move R g reply1 rnd1"
  let ?twice = "get_engine_move_twice R g reply1 rnd1 reply2 rnd2"
  have twice: "?twice = ((fst ?first, fst (ChessGame_get_engine_move R (snd ?first) reply2 rnd2)),
                         snd (ChessGame_get_engine_move R (snd ?first) reply2 rnd2))"
    by (simp add: get_engine_move_twice_def split: prod.splits)
  consider (over) "is_game_over R (board g)"
    | (hit) c where "\<not> is_game_over R (board g)" "move_cache g ?k = Some c"
    | (absent) "\<not> is_game_over R (board g)" "move_cache g ?k = None" "\<not> engine g"
    | (asked) "\<not> is_game_over R (board g)" "move_cache g ?k = None" "engine g"
    by (cases "move_cache g ?k") auto
  then show ?thesis
  proof cases
    case over
    then have "?first = (Inr None, g)"
      by (simp add: ChessGame_get_engine_move_def)
    with over twice show ?thesis
      by (simp add: ChessGame_get_engine_move_def)
  next
    case hit
    let ?g1 = "emit (CacheLookup ?k) g"
    from hit have f: "?first = (Inr (Some c), ?g1)"
      by (rule get_engine_move_cached)
    from hit have s: "ChessGame_get_engine_move R ?g1 reply2 rnd2
        = (Inr (Some c), emit (CacheLookup ?k) ?g1)"
      using get_engine_move_cached [of R ?g1 c reply2 rnd2] by (simp add: emit_fields)
    from hit f s twice show ?thesis
      by (simp add: emit_fields engine_calls_snoc)
  next
    case absent
    from absent(3) have a: "engine_calls (events (snd ?first)) = engine_calls (events g)"
      and b: "\<not> engine (snd ?first)"
      using get_engine_move_no_engine [of g R reply1 rnd1] by simp_all
    from b have "engine_calls (events (snd (ChessGame_get_engine_move R (snd ?first) reply2 rnd2)))
        = engine_calls (events (snd ?first))"
      using get_engine_move_no_engine [of "snd ?first" R reply2 rnd2] by simp
    with a absent twice show ?thesis by simp
  next
    case asked
    let ?g1 = "(emit EnginePlay (emit (CacheLookup ?k) g))\<lparr>move_cache := (move_cache g)(?k \<mapsto> m)\<rparr>"
    from asked assms have f: "?first = (Inr (Some m), ?g1)"
      using get_engine_move_legal_reply [of R g m rnd1] by simp
    from asked have s: "ChessGame_get_engine_move R ?g1 reply2 rnd2
        = (Inr (Some m), emit (CacheLookup ?k) ?g1)"
      using get_engine_move_cached [of R ?g1 m reply2 rnd2] by (simp add: emit_fields)
    from f s twice show ?thesis
      by (simp add: emit_fields engine_calls_snoc)
  qed
qed

lemma engine_reply_calls:
  "engine_calls (events (snd (engine_reply R g k rnd reply))) = engine_calls (events g)"
  using engine_reply_events [of R g k rnd reply] by (auto simp: engine_calls_snoc)

lemma engine_reply_falls_back:
  "falls_back R g reply \<Longrightarrow> engine_reply R g k rnd reply = random_fallback R g rnd"
  by (cases "(R, g, k, rnd, reply)" rule: engine_reply.cases) simp_all

lemma falls_back_emit: "falls_back R (emit e g) reply = falls_back R g reply"
  by (cases "(R, g, reply)" rule: falls_back.cases) (simp_all add: emit_fields)

lemma random_fallback_value:
  "random_fallback R g rnd
     = (Inr (fst (ChessGame_get_random_move R g rnd)), emit RandomMove g)"
  by (simp add: random_fallback_def ChessGame_get_random_move_def Let_def)

lemma random_move_emit:
  "fst (ChessGame_get_random_move R (emit e g) rnd) = fst (ChessGame_get_random_move R g rnd)"
  by (simp add: ChessGame_get_random_move_def Let_def emit_fields)

lemma asked_again_after_fallback:
  assumes "\<not> is_game_over R (board g)" and "engine g"
    and "move_cache g (fen R (cur (board g))) = None"
    and "falls_back R g reply1"
  shows "fst (ChessGame_get_engine_move R g reply1 rnd1)
           = Inr (fst (ChessGame_get_random_move R g rnd1))
         \<and> move_cache (snd (ChessGame_get_engine_move R g reply1 rnd1)) = move_cache g
         \<and> engine_calls (events (snd (ChessGame_get_engine_move R g reply1 rnd1)))
             = engine_calls (events g) + 1
         \<and> engine_calls (events (snd (get_engine_move_twice R g reply1 rnd1 reply2 rnd2)))
             = engine_calls (events g) + 2"
proof -
  let ?k = "fen R (cur (board g))"
  let ?g2 = "emit EnginePlay (emit (CacheLookup ?k) g)"
  let ?g3 = "emit RandomMove ?g2"
  let ?g5 = "emit EnginePlay (emit (CacheLookup ?k) ?g3)"
  from assms(4) have fb: "falls_back R ?g2 reply1" by (simp add: falls_back_emit)
  from assms(1-3) have "ChessGame_get_engine_move R g reply1 rnd1
      = engine_reply R ?g2 ?k rnd1 reply1"
    by (simp add: ChessGame_get_engine_move_def Let_def emit_fields)
  also from fb have "\<dots> = random_fallback R ?g2 rnd1" by (rule engine_reply_falls_back)
  also have "\<dots> = (Inr (fst (ChessGame_get_random_move R g rnd1)), ?g3)"
    by (simp add: random_fallback_value random_move_emit)
  finally have first: "ChessGame_get_engine_move R g reply1 rnd1
      = (Inr (fst (ChessGame_get_random_move R g rnd1)), ?g3)" .
  from assms(1-3) have second: "ChessGame_get_engine_move R ?g3 reply2 rnd2
      = engine_reply R ?g5 ?k rnd2 reply2"
    by (simp add: ChessGame_get_engine_move_def Let_def emit_fields)
  have "engine_calls (events (snd (engine_reply R ?g5 ?k rnd2 reply2)))
      = engine_calls (events ?g5)"
    by (rule engine_reply_calls)
  also have "\<dots> = engine_calls (events g) + 2"
    by (simp add: emit_fields engine_calls_snoc)
  finally have calls: "engine_calls (events (snd (engine_reply R ?g5 ?k rnd2 reply2)))
      = engine_calls (events g) + 2" .
  have twice: "snd (get_engine_move_twice R g reply1 rnd1 reply2 rnd2)
      = snd (ChessGame_get_engine_move R ?g3 reply2 rnd2)"
    by (simp add: get_engine_move_twice_def first split: prod.splits)
  from first second calls twice show ?thesis
    by (simp add: emit_fields engine_calls_snoc)
qed

text \<open>
  C7 (as amended). When the engine's answer to the first of two calls of
  \<^verbatim>\<open>get_engine_move\<close> on the same position is a legal move, the two calls make at most
  one engine request and the second call makes none; with an engine and a game that is
  not over, both calls return the same move, the one the cache holds for the position.
  When the game is not over, there is an engine, the position is not in the cache and
  the first answer is an illegal move, a result without a move, no result or
  \<^verbatim>\<open>EngineTerminatedError\<close>, the first call returns the random fallback move and leaves
  the cache as it was, and the two calls make two engine requests.
\<close>

theorem second_call_served_from_cache:
  "(reply1 = Played (Some m) \<and> m \<in> set (legal_moves R (cur (board g))) \<longrightarrow>
      engine_calls (events (snd (get_engine_move_twice R g reply1 rnd1 reply2 rnd2)))
        \<le> engine_calls (events g) + 1
      \<and> engine_calls (events (snd (get_engine_move_twice R g reply1 rnd1 reply2 rnd2)))
          = engine_calls (events (snd (ChessGame_get_engine_move R g reply1 rnd1)))
      \<and> (engine g \<and> \<not> is_game_over R (board g) \<longrightarrow>
           snd (fst (get_engine_move_twice R g reply1 rnd1 reply2 rnd2))
             = fst (fst (get_engine_move_twice R g reply1 rnd1 reply2 rnd2))
           \<and> (\<exists>c. fst (ChessGame_get_engine_move R g reply1 rnd1) = Inr (Some c)
                  \<and> move_cache (snd (ChessGame_get_engine_move R g reply1 rnd1))
                       (fen R (cur (board g))) = Some c)))
   \<and> (\<not> is_game_over R (board g) \<and> engine g \<and> move_cache g (fen R (cur (board g))) = None
        \<and> falls_back R g reply1 \<longrightarrow>
      fst (ChessGame_get_engine_move R g reply1 rnd1)
        = Inr (fst (ChessGame_get_random_move R g rnd1))
      \<and> move_cache (snd (ChessGame_get_engine_move R g reply1 rnd1)) = move_cache g
      \<and> engine_calls (events (snd (ChessGame_get_engine_move R g reply1 rnd1)))
          = engine_calls (events g) + 1
      \<and> engine_calls (events (snd (get_engine_move_twice R g reply1 rnd1 reply2 rnd2)))
          = engine_calls (events g) + 2)"
  using cached_after_legal_reply [of reply1 m R g rnd1 reply2 rnd2]
    asked_again_after_fallback [of R g reply1 rnd1 reply2 rnd2]
  by blast

theorem second_call_served_from_cache_witness:
  "e2e4 \<in> set (legal_moves fragment (cur (board (opening_game True))))
   \<and> engine_calls (events (snd (get_engine_move_twice fragment (opening_game True)
        (Played (Some e2e4)) 3 (Played (Some e7e5)) 4))) \<le> engine_calls (events (opening_game True)) + 1
   \<and> snd (fst (get_engine_move_twice fragment (opening_game True)
        (Played (Some e2e4)) 3 (Played (Some e7e5)) 4)) = Inr (Some e2e4)
   \<and> falls_back fragment (opening_game True) NoResult
   \<and> move_cache (snd (ChessGame_get_engine_move fragment (opening_game True) NoResult 7))
       = move_cache (opening_game True)
   \<and> engine_calls (events (snd (get_engine_move_twice fragment (opening_game True)
        NoResult 7 NoResult 7))) = engine_calls (events (opening_game True)) + 2"
proof -
  have h: "e2e4 \<in> set (legal_moves fragment (cur (board (opening_game True))))"
    by code_simp
  have r: "snd (fst (get_engine_move_twice fragment (opening_game True)
        (Played (Some e2e4)) 3 (Played (Some e7e5)) 4)) = Inr (Some e2e4)"
    by code_simp
  have o: "\<not> is_game_over fragment (board (opening_game True))" by code_simp
  have e: "engine (opening_game True)" by code_simp
  have c: "move_cache (opening_game True) (fen fragment (cur (board (opening_game True)))) = None"
    by code_simp
  have f: "falls_back fragment (opening_game True) NoResult" by simp
  from second_call_served_from_cache
    [of "Played (Some e2e4)" e2e4 fragment "opening_game True" 3 "Played (Some e7e5)" 4] h
  have one: "engine_calls (events (snd (get_engine_move_twice fragment (opening_game True)
        (Played (Some e2e4)) 3 (Played (Some e7e5)) 4))) \<le> engine_calls (events (opening_game True)) + 1"
    by blast
  from second_call_served_from_cache
    [of NoResult e2e4 fragment "opening_game True" 7 NoResult 7] o e c f
  have two: "move_cache (snd (ChessGame_get_engine_move fragment (opening_game True) NoResult 7))
       = move_cache (opening_game True)
     \<and> engine_calls (events (snd (get_engine_move_twice fragment (opening_game True)
        NoResult 7 NoResult 7))) = engine_calls (events (opening_game True)) + 2"
    by blast
  from h r f one two show ?thesis by blast
qed

text \<open>
  C7 as stated fails: when the engine suggests an illegal move, has terminated or gives
  no result, nothing is cached, and the second call on the same position asks the engine
  again.
\<close>

theorem two_calls_two_engine_requests:
  "engine_calls (events (opening_game True)) = 0
   \<and> board (snd (ChessGame_get_engine_move fragment (opening_game True) (Played (Some e2e5)) 7))
       = board (opening_game True)
   \<and> engine_calls (events (snd (get_engine_move_twice fragment (opening_game True)
        (Played (Some e2e5)) 7 (Played (Some e2e5)) 7))) = 2
   \<and> engine_calls (events (snd (get_engine_move_twice fragment (opening_game True)
        Terminated 7 Terminated 7))) = 2
   \<and> engine_calls (events (snd (get_engine_move_twice fragment (opening_game True)
        NoResult 7 NoResult 7))) = 2"
  by code_simp

section \<open>Properties of the web application\<close>

text \<open>
  C2. When the move requested of \<^verbatim>\<open>/api/move\<close> for an existing session is not among the
  legal moves of the session's position, the handler answers with the error
  \<^verbatim>\<open>Illegal move\<close> and the application state, with every session in it, is unchanged.
  \<^verbatim>\<open>ChessGame.make_move\<close> returns \<^verbatim>\<open>False\<close> for such a move and leaves the game object
  unchanged.
\<close>

theorem illegal_move_rejected:
  assumes "find_game A (move_gameId req) = Some (gid, g)"
    and "parse_square (move_from req) = Some from_idx"
    and "parse_square (move_to req) = Some to_idx"
    and "requested_move R (cur (game_board g)) from_idx to_idx
           \<notin> set (legal_moves R (cur (game_board g)))"
  shows "make_move R A req reply rnd areply = (Inl (BadRequest ''Illegal move''), A)
         \<and> (m \<notin> set (legal_moves R (cur (board G)))
              \<longrightarrow> ChessGame_make_move R G m = (Inr False, G))"
  using assms by (simp add: make_move_def ChessGame_make_move_def)

theorem illegal_move_rejected_witness:
  "find_game (white_app True) (move_gameId e2_e5) = Some (''17'', new_session ''Play'' True)
   \<and> parse_square (move_from e2_e5) = Some 12 \<and> parse_square (move_to e2_e5) = Some 36
   \<and> e2e5 \<notin> set (legal_moves fragment (cur (game_board (new_session ''Play'' True))))
   \<and> make_move fragment (white_app True) e2_e5 (Played (Some e7e5)) 0 (Score 30)
       = (Inl (BadRequest ''Illegal move''), white_app True)
   \<and> ChessGame_make_move fragment (opening_game True) e2e5 = (Inr False, opening_game True)"
proof -
  have a: "find_game (white_app True) (move_gameId e2_e5)
      = Some (''17'', new_session ''Play'' True)"
    by code_simp
  have b: "parse_square (move_from e2_e5) = Some 12" by code_simp
  have c: "parse_square (move_to e2_e5) = Some 36" by code_simp
  have d: "requested_move fragment (cur (game_board (new_session ''Play'' True))) 12 36 = e2e5"
    by code_simp
  have e: "e2e5 \<notin> set (legal_moves fragment (cur (game_board (new_session ''Play'' True))))"
    by code_simp
  have f: "e2e5 \<notin> set (legal_moves fragment (cur (board (opening_game True))))"
    by code_simp
  from e d have e': "requested_move fragment (cur (game_board (new_session ''Play'' True))) 12 36
      \<notin> set (legal_moves fragment (cur (game_board (new_session ''Play'' True))))"
    by simp
  from illegal_move_rejected [OF a b c e', of "Played (Some e7e5)" 0 "Score 30" e2e5
      "opening_game True"] a b c e f
  show ?thesis by simp
qed

lemma find_game_Some:
  "find_game A game_id = Some (gid, g) \<Longrightarrow> active_games A gid = Some g \<and> game_id = Some gid"
  by (auto simp: find_game_def split: option.splits if_splits)

lemma put_game_same: "active_games A gid = Some g \<Longrightarrow> put_game gid g A = A"
  by (simp add: put_game_def fun_upd_idem)

lemma undo_once_result:
  "\<exists>g'. undo_once g = Inr g' \<and> game_mode g' = game_mode g
         \<and> move_stack (game_board g') = butlast (move_stack (game_board g))
         \<and> (length (game_move_history g) \<le> length (move_stack (game_board g))
              \<longrightarrow> game_move_history g' = butlast (game_move_history g))
         \<and> (move_stack (game_board g) = [] \<longrightarrow> g' = g)"
proof (cases "move_stack (game_board g) = []")
  case True
  then show ?thesis by (simp add: undo_once_def)
next
  case False
  then obtain b' where b': "pop (game_board g) = Some b'"
    "move_stack b' = butlast (move_stack (game_board g))"
    using pop_Some by blast
  with False show ?thesis by (simp add: undo_once_def)
qed

lemma butlast_twice_take:
  "butlast (butlast xs) = take (length xs - min 2 (length xs)) xs"
  by (simp add: butlast_conv_take min_def numeral_2_eq_2)

lemma butlast_once_take:
  "butlast xs = take (length xs - min 1 (length xs)) xs"
  by (simp add: butlast_conv_take min_def)

lemma undo_moves_result:
  "\<exists>g'. undo_moves g = Inr g'
         \<and> (length (game_move_history g) \<le> length (move_stack (game_board g))
              \<longrightarrow> game_move_history g'
                    = take (length (game_move_history g) - popped g) (game_move_history g))
         \<and> (session_consistent g \<longrightarrow> session_consistent g')
         \<and> (move_stack (game_board g) = [] \<longrightarrow> g' = g)"
proof (cases "game_mode g = ''Play''")
  case False
  from undo_once_result [of g] obtain g' where g': "undo_once g = Inr g'"
    "move_stack (game_board g') = butlast (move_stack (game_board g))"
    "length (game_move_history g) \<le> length (move_stack (game_board g))
       \<longrightarrow> game_move_history g' = butlast (game_move_history g)"
    "move_stack (game_board g) = [] \<longrightarrow> g' = g"
    by blast
  from False have p: "popped g = min 1 (length (game_move_history g))"
    by (simp add: popped_def)
  from False g'(1) have u: "undo_moves g = Inr g'"
    by (simp add: undo_moves_def)
  have h: "game_move_history g'
      = take (length (game_move_history g) - popped g) (game_move_history g)"
    if "length (game_move_history g) \<le> length (move_stack (game_board g))"
    using that g'(3) unfolding p by (simp only: butlast_once_take [symmetric])
  have c: "session_consistent g'" if "session_consistent g"
    using that g'(2) g'(3) by (simp add: session_consistent_def)
  from u h c g'(4) show ?thesis by blast
next
  case True
  from undo_once_result [of g] obtain g1 where g1: "undo_once g = Inr g1"
    "move_stack (game_board g1) = butlast (move_stack (game_board g))"
    "length (game_move_history g) \<le> length (move_stack (game_board g))
       \<longrightarrow> game_move_history g1 = butlast (game_move_history g)"
    "move_stack (game_board g) = [] \<longrightarrow> g1 = g"
    by blast
  from undo_once_result [of g1] obtain g2 where g2: "undo_once g1 = Inr g2"
    "move_stack (game_board g2) = butlast (move_stack (game_board g1))"
    "length (game_move_history g1) \<le> length (move_stack (game_board g1))
       \<longrightarrow> game_move_history g2 = butlast (game_move_history g1)"
    "move_stack (game_board g1) = [] \<longrightarrow> g2 = g1"
    by blast
  from True have p: "popped g = min 2 (length (game_move_history g))"
    by (simp add: popped_def)
  from True g1(1) g2(1) have u: "undo_moves g = Inr g2"
    by (simp add: undo_moves_def)
  have h: "game_move_history g2
      = take (length (game_move_history g) - popped g) (game_move_history g)"
    if le: "length (game_move_history g) \<le> length (move_stack (game_board g))"
  proof -
    from le g1(3) have a: "game_move_history g1 = butlast (game_move_history g)" by simp
    with le g1(2) have "length (game_move_history g1) \<le> length (move_stack (game_board g1))"
      by simp
    with g2(3) a have "game_move_history g2 = butlast (butlast (game_move_history g))"
      by simp
    then show ?thesis unfolding p by (simp only: butlast_twice_take [symmetric])
  qed
  have c: "session_consistent g2" if "session_consistent g"
  proof -
    from that g1(2) g1(3) have "session_consistent g1" by (simp add: session_consistent_def)
    with g2(2) g2(3) show ?thesis by (simp add: session_consistent_def)
  qed
  have e: "g2 = g" if "move_stack (game_board g) = []"
  proof -
    from that g1(4) have "g1 = g" by simp
    with that g2(4) show ?thesis by simp
  qed
  from u h c e show ?thesis by blast
qed

text \<open>
  C3 (as amended). For every existing session \<^verbatim>\<open>/api/undo\<close> answers with the state of
  the game, never with an error. On a session whose history has an entry for every move
  on its board, the history loses its last two entries in Play mode when it has at least
  two (its only entry when it has one) and its last entry in the other modes, the
  session keeps one history entry per board move, and when the history is empty the
  application state is unchanged. The count of entries taken holds as soon as the
  history is no longer than the board's move stack.
\<close>

theorem undo_pops_history:
  assumes "find_game A game_id = Some (gid, g)"
  shows "\<exists>g'. undo_move R A game_id = (Inr (Undone (view R g')), put_game gid g' A)
           \<and> (length (game_move_history g) \<le> length (move_stack (game_board g))
                \<longrightarrow> game_move_history g'
                      = take (length (game_move_history g) - popped g) (game_move_history g))
           \<and> (session_consistent g
                \<longrightarrow> session_consistent g'
                    \<and> (game_move_history g = [] \<longrightarrow> g' = g \<and> put_game gid g' A = A))"
proof -
  from undo_moves_result [of g] obtain g' where g': "undo_moves g = Inr g'"
    "length (game_move_history g) \<le> length (move_stack (game_board g))
       \<longrightarrow> game_move_history g'
             = take (length (game_move_history g) - popped g) (game_move_history g)"
    "session_consistent g \<longrightarrow> session_consistent g'"
    "move_stack (game_board g) = [] \<longrightarrow> g' = g"
    by blast
  from assms have "active_games A gid = Some g" by (simp add: find_game_Some)
  then have same: "put_game gid g A = A" by (rule put_game_same)
  have noop: "g' = g \<and> put_game gid g' A = A"
    if "session_consistent g" "game_move_history g = []"
  proof -
    from that have "move_stack (game_board g) = []" by (simp add: session_consistent_def)
    with g'(4) same show ?thesis by simp
  qed
  from g'(1) assms
  have "undo_move R A game_id = (Inr (Undone (view R g')), put_game gid g' A)"
    by (simp add: undo_move_def)
  with g'(2) g'(3) noop show ?thesis by blast
qed

theorem undo_pops_history_witness:
  "find_game played_app (Some ''17'') = Some (''17'', played_session)
   \<and> session_consistent played_session \<and> popped played_session = 2
   \<and> (\<exists>g'. undo_move fragment played_app (Some ''17'')
              = (Inr (Undone (view fragment g')), put_game ''17'' g' played_app)
            \<and> game_move_history g' = [] \<and> session_consistent g')"
proof -
  have a: "find_game played_app (Some ''17'') = Some (''17'', played_session)"
    by code_simp
  have b: "session_consistent played_session" by code_simp
  have c: "popped played_session = 2" by code_simp
  have d: "length (game_move_history played_session) = 2" by code_simp
  from b have le: "length (game_move_history played_session)
      \<le> length (move_stack (game_board played_session))"
    by (simp add: session_consistent_def)
  from undo_pops_history [OF a, of fragment] le b obtain g' where
    g': "undo_move fragment played_app (Some ''17'')
           = (Inr (Undone (view fragment g')), put_game ''17'' g' played_app)"
    "game_move_history g'
       = take (length (game_move_history played_session) - popped played_session)
           (game_move_history played_session)"
    "session_consistent g'"
    by blast
  from g'(2) c d have "game_move_history g' = []" by simp
  with g'(1) g'(3) a b c show ?thesis by blast
qed

text \<open>
  C3 as stated fails: the pops are guarded by the board's move stack, not by the
  history. In the session left behind by a game requested as Black, whose history is
  empty while its board holds the move e2-e4, \<^verbatim>\<open>/api/undo\<close> takes that move back: the
  side to move changes from Black to White and the stored session is another one.
\<close>

theorem undo_changes_orphan_session:
  "active_games orphan_app ''17'' = Some orphan_session
   \<and> game_move_history orphan_session = []
   \<and> view_turn (view fragment orphan_session) = ''black''
   \<and> fst (undo_move fragment orphan_app (Some ''17''))
       = Inr (Undone (view fragment (new_session ''Play'' False)))
   \<and> view_turn (view fragment (new_session ''Play'' False)) = ''white''
   \<and> active_games (snd (undo_move fragment orphan_app (Some ''17''))) ''17''
       = Some (new_session ''Play'' False)
   \<and> move_stack (game_board orphan_session) = [e2e4]
   \<and> move_stack (game_board (new_session ''Play'' False)) = []"
  by code_simp

lemma manager_random_games:
  "active_games (snd (ChessGameManager_get_random_move R A b rnd)) = active_games A"
  by (simp add: ChessGameManager_get_random_move_def note_call_def Let_def)

lemma manager_reply_games:
  "active_games (snd (manager_reply R A b rnd reply)) = active_games A"
  by (cases "(R, A, b, rnd, reply)" rule: manager_reply.cases)
     (simp_all add: manager_random_games)

lemma manager_engine_move_games:
  "active_games (snd (ChessGameManager_get_engine_move R A b think reply rnd)) = active_games A"
  by (simp add: ChessGameManager_get_engine_move_def manager_random_games manager_reply_games
      note_call_def)

lemma finish_move_games:
  "active_games (snd (finish_move R A g lastMove engineMove areply)) = active_games A"
  by (simp add: finish_move_def ChessGameManager_analyze_position_def note_call_def
      split: prod.splits)

lemma put_game_lookup: "active_games (put_game gid g A) gid = Some g"
  by (simp add: put_game_def)

lemma first_move_stores:
  assumes "active_games A gid = Some g"
  shows "(\<exists>g'. active_games (snd (first_move R A gid g mv)) gid = Some g'
               \<and> game_mode g' = game_mode g)
         \<and> fst (first_move R A gid g mv) \<noteq> Inl (BadRequest msg)"
proof (cases mv)
  case None
  with assms show ?thesis by simp
next
  case (Some m)
  with assms show ?thesis
    by (simp add: Let_def put_game_lookup split: option.splits)
qed

text \<open>
  C5 (as amended). \<^verbatim>\<open>/api/new_game\<close> does not look at what the mode is: for every
  request, whatever its mode string, a session carrying that mode (\<^verbatim>\<open>Play\<close> when the
  request has none) is stored under the new game id, and the handler never answers with
  a 400 error.
\<close>

theorem new_game_stores_any_mode:
  "(\<exists>g. active_games (snd (new_game R A req now reply rnd)) (str_nat now) = Some g
        \<and> game_mode g = (case req_mode req of None \<Rightarrow> ''Play'' | Some s \<Rightarrow> s))
   \<and> fst (new_game R A req now reply rnd) \<noteq> Inl (BadRequest msg)"
proof -
  let ?md = "case req_mode req of None \<Rightarrow> ''Play'' | Some s \<Rightarrow> s"
  let ?white = "(case req_color req of None \<Rightarrow> ''white'' | Some c \<Rightarrow> c) = ''white''"
  let ?g = "\<lparr>game_board = new_board R, game_mode = ?md, human_is_white = ?white,
             difficulty = 3, game_show_hints = True, game_move_history = [],
             last_engine_hint = None\<rparr>"
  let ?A1 = "put_game (str_nat now) ?g A"
  let ?em = "ChessGameManager_get_engine_move R ?A1 (game_board ?g) 3 reply rnd"
  have eq: "new_game R A req now reply rnd
      = (if \<not> ?white \<and> ?md \<noteq> ''Self-Practice''
         then first_move R (snd ?em) (str_nat now) ?g (fst ?em)
         else (Inr (Created (str_nat now) (view R ?g)), ?A1))"
    unfolding new_game_def Let_def case_prod_beta by (rule refl)
  have stored: "active_games (snd ?em) (str_nat now) = Some ?g"
    by (simp add: manager_engine_move_games put_game_lookup)
  have mode: "game_mode ?g = ?md" by simp
  show ?thesis
  proof (cases "\<not> ?white \<and> ?md \<noteq> ''Self-Practice''")
    case False
    have "new_game R A req now reply rnd
        = (Inr (Created (str_nat now) (view R ?g)), ?A1)"
      by (rule trans [OF eq if_not_P [OF False]])
    with mode show ?thesis by (simp add: put_game_lookup)
  next
    case True
    have eq': "new_game R A req now reply rnd
        = first_move R (snd ?em) (str_nat now) ?g (fst ?em)"
      by (rule trans [OF eq if_P [OF True]])
    from first_move_stores [OF stored, of R "fst ?em" msg] show ?thesis
      unfolding eq' by simp
  qed
qed

theorem new_game_stores_any_mode_witness:
  "(\<exists>g. active_games (snd (new_game fragment (fresh_app False)
            \<lparr>req_mode = Some ''Blitz'', req_color = Some ''white''\<rparr> 17 NoResult 0))
          (str_nat 17) = Some g \<and> game_mode g = ''Blitz'')
   \<and> fst (new_game fragment (fresh_app False)
            \<lparr>req_mode = Some ''Blitz'', req_color = Some ''white''\<rparr> 17 NoResult 0)
       \<noteq> Inl (BadRequest ''Invalid mode'')"
  using new_game_stores_any_mode [of fragment "fresh_app False"
      "\<lparr>req_mode = Some ''Blitz'', req_color = Some ''white''\<rparr>" 17 NoResult 0 "''Invalid mode''"]
  by simp

text \<open>
  C5 as stated fails: a request with the mode \<^verbatim>\<open>Blitz\<close> is answered with a new game, and
  the session is stored with that mode.
\<close>

theorem unknown_mode_creates_session:
  "fst (new_game fragment (fresh_app False)
          \<lparr>req_mode = Some ''Blitz'', req_color = Some ''white''\<rparr> 17 NoResult 0)
     = Inr (Created ''17'' (view fragment (new_session ''Blitz'' True)))
   \<and> active_games (snd (new_game fragment (fresh_app False)
          \<lparr>req_mode = Some ''Blitz'', req_color = Some ''white''\<rparr> 17 NoResult 0)) ''17''
       = Some (new_session ''Blitz'' True)"
  by code_simp

text \<open>
  C6 (as amended). \<^verbatim>\<open>/api/set_difficulty\<close> stores the level clamped into 1..4 in the
  session (3 when the request has none), answers with it and makes no call on the
  engine. \<^verbatim>\<open>ChessGame.set_difficulty\<close> stores the level as it is given, sends one
  Skill Level configuration to the engine when there is one (0, 5, 10, 20 for the levels
  1..4, 10 for any other), and returns normally when that configuration succeeds or
  fails with an \<^verbatim>\<open>EngineError\<close>.
\<close>

theorem set_difficulty_behaviour:
  assumes "find_game A game_id = Some (gid, g)"
  shows "set_difficulty A game_id level
           = (Inr (DifficultySet (max 1 (min 4 (case level of None \<Rightarrow> 3 | Some l \<Rightarrow> l)))),
              put_game gid
                (g\<lparr>difficulty := max 1 (min 4 (case level of None \<Rightarrow> 3 | Some l \<Rightarrow> l))\<rparr>) A)
         \<and> 1 \<le> max 1 (min 4 (case level of None \<Rightarrow> 3 | Some l \<Rightarrow> l))
         \<and> max 1 (min 4 (case level of None \<Rightarrow> 3 | Some l \<Rightarrow> l)) \<le> (4 :: int)
         \<and> calls (snd (set_difficulty A game_id level)) = calls A
         \<and> difficulty_level (snd (ChessGame_set_difficulty G lv creply)) = lv
         \<and> new_events G (snd (ChessGame_set_difficulty G lv creply))
             = (if engine G then [EngineConfigure (skill_level lv)] else [])
         \<and> (creply \<noteq> ConfigFailure \<longrightarrow> fst (ChessGame_set_difficulty G lv creply) = Inr ())"
proof -
  from assms have a: "set_difficulty A game_id level
           = (Inr (DifficultySet (max 1 (min 4 (case level of None \<Rightarrow> 3 | Some l \<Rightarrow> l)))),
              put_game gid
                (g\<lparr>difficulty := max 1 (min 4 (case level of None \<Rightarrow> 3 | Some l \<Rightarrow> l))\<rparr>) A)"
    by (simp add: set_difficulty_def Let_def)
  then have b: "calls (snd (set_difficulty A game_id level)) = calls A"
    by (simp add: put_game_def)
  have c: "difficulty_level (snd (ChessGame_set_difficulty G lv creply)) = lv"
    by (cases creply) (simp_all add: ChessGame_set_difficulty_def Let_def emit_def)
  have d: "new_events G (snd (ChessGame_set_difficulty G lv creply))
             = (if engine G then [EngineConfigure (skill_level lv)] else [])"
    by (cases creply) (simp_all add: ChessGame_set_difficulty_def Let_def emit_def new_events_def)
  have e: "fst (ChessGame_set_difficulty G lv creply) = Inr ()" if "creply \<noteq> ConfigFailure"
    using that by (cases creply) (simp_all add: ChessGame_set_difficulty_def Let_def)
  from a b c d e show ?thesis by simp
qed

theorem set_difficulty_behaviour_witness:
  "find_game (white_app True) (Some ''17'') = Some (''17'', new_session ''Play'' True)
   \<and> set_difficulty (white_app True) (Some ''17'') (Some 9)
       = (Inr (DifficultySet 4),
          put_game ''17'' ((new_session ''Play'' True)\<lparr>difficulty := 4\<rparr>) (white_app True))
   \<and> difficulty_level (snd (ChessGame_set_difficulty (opening_game True) 9 ConfigEngineError)) = 9
   \<and> fst (ChessGame_set_difficulty (opening_game True) 9 ConfigEngineError) = Inr ()"
proof -
  have a: "find_game (white_app True) (Some ''17'') = Some (''17'', new_session ''Play'' True)"
    by code_simp
  from set_difficulty_behaviour [OF a, of "Some 9" "opening_game True" 9 ConfigEngineError] a
  show ?thesis by simp
qed

text \<open>
  C6 as stated fails on either path: \<^verbatim>\<open>ChessGame.set_difficulty\<close> stores the level 7
  unclamped, and the handler of \<^verbatim>\<open>/api/set_difficulty\<close>, which clamps 7 to 4, makes no
  call on the engine the manager holds.
\<close>

theorem difficulty_unclamped_or_not_forwarded:
  "difficulty_level (snd (ChessGame_set_difficulty (opening_game True) 7 Configured)) = 7
   \<and> manager_engine (white_app True)
   \<and> fst (set_difficulty (white_app True) (Some ''17'') (Some 7)) = Inr (DifficultySet 4)
   \<and> calls (snd (set_difficulty (white_app True) (Some ''17'') (Some 7)))
       = calls (white_app True)"
  by code_simp

lemma engine_answer_keeps_hint:
  assumes "active_games A gid = Some g0" and "last_engine_hint g0 = h"
    and "last_engine_hint g = h"
  shows "\<exists>g'. active_games (snd (engine_answer R A gid g lastMove areply mv)) gid = Some g'
              \<and> last_engine_hint g' = h"
proof (cases mv)
  case None
  with assms show ?thesis by (simp add: finish_move_games)
next
  case (Some m)
  with assms show ?thesis
    by (simp add: Let_def finish_move_games put_game_lookup split: option.splits)
qed

lemma nested_if_cases:
  "(if c1 then (if c2 then x else y) else y) = x
   \<or> (if c1 then (if c2 then x else y) else y) = y"
  by simp

lemma apply_legal_keeps_hint:
  assumes "active_games A gid = Some g"
  shows "\<exists>g'. active_games (snd (apply_legal R A gid g req m reply rnd areply)) gid = Some g'
              \<and> last_engine_hint g' = last_engine_hint g"
proof (cases "san R (cur (game_board g)) m")
  case None
  with assms show ?thesis by (simp add: apply_legal_def)
next
  case (Some san_move)
  let ?g1 = "g\<lparr>game_board := push R (game_board g) m,
                game_move_history := game_move_history g @ [san_move]\<rparr>"
  let ?A1 = "put_game gid ?g1 A"
  let ?em = "ChessGameManager_get_engine_move R ?A1 (game_board ?g1) (difficulty ?g1) reply rnd"
  let ?lm = "\<lparr>info_from = the (move_from req), info_to = the (move_to req),
              info_san = san_move\<rparr>"
  have stored: "active_games ?A1 gid = Some ?g1" by (simp add: put_game_lookup)
  have hint: "last_engine_hint ?g1 = last_engine_hint g" by simp
  have fin: "\<exists>g'. active_games (snd (finish_move R ?A1 ?g1 ?lm None areply)) gid = Some g'
      \<and> last_engine_hint g' = last_engine_hint g"
    using stored by (simp add: finish_move_games)
  have "active_games (snd ?em) gid = Some ?g1"
    using stored by (simp add: manager_engine_move_games)
  from engine_answer_keeps_hint [OF this hint hint, of R ?lm areply "fst ?em"]
  have eng: "\<exists>g'. active_games (snd (engine_answer R (snd ?em) gid ?g1 ?lm areply (fst ?em)))
      gid = Some g' \<and> last_engine_hint g' = last_engine_hint g" .
  have "apply_legal R A gid g req m reply rnd areply
      = engine_answer R (snd ?em) gid ?g1 ?lm areply (fst ?em)
    \<or> apply_legal R A gid g req m reply rnd areply = finish_move R ?A1 ?g1 ?lm None areply"
    unfolding apply_legal_def Let_def Some option.case case_prod_beta
    by (rule nested_if_cases)
  with fin eng show ?thesis by auto
qed

text \<open>
  C8 (as amended). \<^verbatim>\<open>/api/move\<close> never changes the hint stored in a session: for every
  existing session and every request, applied or refused, the session's
  \<^verbatim>\<open>last_engine_hint\<close> after the handler is the one before it.
\<close>

theorem make_move_keeps_hint:
  assumes "find_game A (move_gameId req) = Some (gid, g)"
  shows "\<exists>g'. active_games (snd (make_move R A req reply rnd areply)) gid = Some g'
              \<and> last_engine_hint g' = last_engine_hint g"
proof -
  from assms have stored: "active_games A gid = Some g" by (simp add: find_game_Some)
  from apply_legal_keeps_hint [OF stored]
  have "\<exists>g'. active_games (snd (apply_legal R A gid g req m reply rnd areply)) gid = Some g'
      \<and> last_engine_hint g' = last_engine_hint g" for m .
  with assms stored show ?thesis
    by (simp add: make_move_def Let_def split: option.splits)
qed

theorem make_move_keeps_hint_witness:
  "find_game hinted_app (move_gameId e2_e4)
     = Some (''17'', (new_session ''Play'' True)\<lparr>last_engine_hint := Some e4_hint\<rparr>)
   \<and> (\<exists>g'. active_games after_hint_and_move ''17'' = Some g'
            \<and> last_engine_hint g' = Some e4_hint)"
proof -
  have a: "find_game hinted_app (move_gameId e2_e4)
     = Some (''17'', (new_session ''Play'' True)\<lparr>last_engine_hint := Some e4_hint\<rparr>)"
    by code_simp
  from make_move_keeps_hint [OF a, of fragment "Played (Some e7e5)" 0 "Score 30"] a
  show ?thesis by (simp add: after_hint_and_move_def)
qed

text \<open>
  C8 as stated fails: after a hint has been requested and stored, the move e2-e4 is
  applied (and answered by e7-e5), and the session still holds the hint.
\<close>

theorem hint_survives_move:
  "map_option last_engine_hint (active_games hinted_app ''17'') = Some (Some e4_hint)
   \<and> map_option game_move_history (active_games after_hint_and_move ''17'')
       = Some [''e4'', ''e5'']
   \<and> map_option last_engine_hint (active_games after_hint_and_move ''17'')
       = Some (Some e4_hint)"
  by code_simp

text \<open>
  C1. Creating a Play game as Black fails: the engine's first move is pushed on the
  board and only then is its notation asked of the board, where no piece stands on the
  square the move starts from any more. The board's \<^verbatim>\<open>san\<close> raises, the handler ends with
  that exception instead of an answer, and the session left in the table has a move on
  its board and an empty history. It fails with an engine (answering e2-e4) and without
  one (random move), and the notation is missing after every legal first move.
\<close>

theorem new_game_as_black_raises:
  "fst (new_game fragment (fresh_app True) as_black 17 (Played (Some e2e4)) 0)
     = Inl (Unhandled ''board.san'')
   \<and> active_games (snd (new_game fragment (fresh_app True) as_black 17 (Played (Some e2e4)) 0))
       ''17'' = Some orphan_session
   \<and> game_move_history orphan_session = []
   \<and> move_stack (game_board orphan_session) = [e2e4]
   \<and> fst (new_game fragment (fresh_app False) as_black 17 NoResult 0)
       = Inl (Unhandled ''board.san'')
   \<and> list_all (\<lambda>m. san fragment (apply_move fragment (start_pos fragment) m) m = None)
       (legal_moves fragment (start_pos fragment))"
  by code_simp

end
